theory Spec2Isabelle
  imports Main "HOL-Library.Word" "HOL-Library.Sublist"
begin

section \<open>zipserver: serving a ZIP archive over HTTP\<close>

text \<open>
  A shallow embedding of \<^verbatim>\<open>pkg.go\<close>: the constructor \<^verbatim>\<open>Handler\<close>, the request
  router it returns, \<^verbatim>\<open>conjureContentType\<close>, \<^verbatim>\<open>seekableFS.Open\<close> and
  \<^verbatim>\<open>seekableFile.Seek\<close>.

  The Go libraries the package calls are its environment. Those with a small, fixed
  contract are written out (\<^verbatim>\<open>strings.Contains\<close>, \<^verbatim>\<open>strings.TrimPrefix\<close>,
  \<^verbatim>\<open>path.Ext\<close>, \<^verbatim>\<open>strconv.FormatUint\<close>, \<^verbatim>\<open>http.Header\<close>, \<^verbatim>\<open>io.CopyBuffer\<close>);
  the others are parameters, collected in the record \<open>env\<close> (\<^verbatim>\<open>mime.TypeByExtension\<close>,
  \<^verbatim>\<open>http.DetectContentType\<close>, \<^verbatim>\<open>time.Time.Format\<close>, \<^verbatim>\<open>http.FileServer\<close>) or fields
  of the archive (\<^verbatim>\<open>zip.File.Open\<close>, \<^verbatim>\<open>zip.File.OpenRaw\<close>, \<^verbatim>\<open>zip.Reader.Open\<close>), so
  that every theorem holds for whatever they answer.
\<close>

subsection \<open>Errors and byte streams\<close>

type_synonym byte = "8 word"

text \<open>Go's \<^verbatim>\<open>error\<close> values: \<^verbatim>\<open>io.EOF\<close>, and an error carrying a message
  (\<^verbatim>\<open>errors.New\<close>).\<close>

datatype error = EOF | Error string

text \<open>
  A byte stream (\<^verbatim>\<open>io.Reader\<close>) as the archive library hands it out:
  \<^item> \<open>data\<close>: the bytes the stream has still to deliver, in order;
  \<^item> \<open>fault\<close>: the error that ends the stream in place of \<^verbatim>\<open>io.EOF\<close>, if any;
  \<^item> \<open>limits\<close>: a single \<^verbatim>\<open>Read\<close> may deliver fewer bytes than the buffer holds; the
    \<open>k\<close>-th coming read delivers at most \<open>Suc (limits ! k)\<close> bytes, and reads beyond
    the list are bounded by the buffer alone.

  \<open>Read r n\<close> is \<^verbatim>\<open>r.Read(b)\<close> for a buffer of \<open>n\<close> bytes: the bytes read, the
  error, and the stream afterwards.
\<close>

record reader =
  data :: "byte list"
  fault :: "error option"
  limits :: "nat list"

definition Read :: "reader \<Rightarrow> nat \<Rightarrow> byte list \<times> error option \<times> reader" where
  "Read r n =
     (if data r = [] then ([], Some (case fault r of None \<Rightarrow> EOF | Some e \<Rightarrow> e), r)
      else let k = min n (case limits r of [] \<Rightarrow> length (data r)
                                          | l # _ \<Rightarrow> min (Suc l) (length (data r)))
           in (take k (data r), None, r\<lparr>data := drop k (data r), limits := tl (limits r)\<rparr>))"

text \<open>
  A stream that can be closed (\<^verbatim>\<open>io.ReadCloser\<close>, \<^verbatim>\<open>fs.File\<close>): the stream, whether
  \<^verbatim>\<open>Close\<close> has been called, what the first \<^verbatim>\<open>Close\<close> answers, and of which of the
  two kinds that \<^verbatim>\<open>archive/zip\<close> hands out it is:
  \<^item> \<open>nop_close = False\<close>: the stream of a Deflate entry. Once closed it delivers
    nothing, and a read fails.
  \<^item> \<open>nop_close = True\<close>: the stream of a Store entry, which \<^verbatim>\<open>archive/zip\<close> wraps in
    \<^verbatim>\<open>io.NopCloser\<close>. \<^verbatim>\<open>Close\<close> does nothing to it and answers no error, and reads go
    on where they were.

  A \<^verbatim>\<open>Close\<close> after the first answers no error.
\<close>

record ReadCloser =
  stream :: reader
  closed :: bool
  close_err :: "error option"
  nop_close :: bool

definition ReadCloser_Read :: "ReadCloser \<Rightarrow> nat \<Rightarrow> byte list \<times> error option \<times> ReadCloser" where
  "ReadCloser_Read rc n =
     (if closed rc \<and> \<not> nop_close rc then ([], Some (Error ''Read after Close''), rc)
      else case Read (stream rc) n of (p, er, s) \<Rightarrow> (p, er, rc\<lparr>stream := s\<rparr>))"

definition Close :: "ReadCloser \<Rightarrow> error option \<times> ReadCloser" where
  "Close rc = (if closed rc \<or> nop_close rc then None else close_err rc, rc\<lparr>closed := True\<rparr>)"

subsection \<open>Strings, paths and numbers\<close>

text \<open>\<^verbatim>\<open>strings.HasPrefix\<close>, \<^verbatim>\<open>strings.TrimPrefix\<close> and \<^verbatim>\<open>strings.Contains\<close>.\<close>

definition HasPrefix :: "string \<Rightarrow> string \<Rightarrow> bool" where
  "HasPrefix s pre = prefix pre s"

definition TrimPrefix :: "string \<Rightarrow> string \<Rightarrow> string" where
  "TrimPrefix s pre = (if HasPrefix s pre then drop (length pre) s else s)"

fun Contains :: "string \<Rightarrow> string \<Rightarrow> bool" where
  "Contains [] substr = (substr = [])"
| "Contains (c # s) substr = (prefix substr (c # s) \<or> Contains s substr)"

text \<open>
  \<^verbatim>\<open>path.Ext\<close>: the suffix beginning at the last dot of the last slash-separated
  element, empty when that element has no dot. The source scans from the end; \<open>ext_scan\<close>
  scans the reversed path and carries the characters already passed.
\<close>

fun ext_scan :: "string \<Rightarrow> string \<Rightarrow> string" where
  "ext_scan [] acc = ''''"
| "ext_scan (c # cs) acc =
     (if c = CHR ''/'' then ''''
      else if c = CHR ''.'' then c # acc
      else ext_scan cs (c # acc))"

definition Ext :: "string \<Rightarrow> string" where
  "Ext p = ext_scan (rev p) []"

text \<open>\<^verbatim>\<open>strconv.FormatUint\<close>: the digits of an unsigned 64-bit number in a base
  from 2 to 36.\<close>

definition digit :: "nat \<Rightarrow> char" where
  "digit d = ''0123456789abcdefghijklmnopqrstuvwxyz'' ! d"

function formatBits :: "nat \<Rightarrow> nat \<Rightarrow> string" where
  "formatBits n b =
     (if b < 2 \<or> n < b then [digit n] else formatBits (n div b) b @ [digit (n mod b)])"
  by pat_completeness auto
termination
  by (relation "measure (\<lambda>(n, b). n)") auto

definition FormatUint :: "64 word \<Rightarrow> nat \<Rightarrow> string" where
  "FormatUint i base = formatBits (unat i) base"

text \<open>Reading a decimal numeral back, to say what a formatted length denotes.\<close>

definition digit_val :: "char \<Rightarrow> nat" where
  "digit_val c = of_char c - 48"

definition decimal_value :: "string \<Rightarrow> nat" where
  "decimal_value s = foldl (\<lambda>a c. a * 10 + digit_val c) 0 s"

subsection \<open>HTTP requests and responses\<close>

text \<open>
  \<^verbatim>\<open>http.Header\<close> maps a header name to its list of values. The names the package uses
  are literals in canonical form already.
\<close>

type_synonym Header = "string \<rightharpoonup> string list"

definition Get :: "Header \<Rightarrow> string \<Rightarrow> string" where
  "Get h key = (case h key of None \<Rightarrow> '''' | Some [] \<Rightarrow> '''' | Some (v # _) \<Rightarrow> v)"

definition Values :: "Header \<Rightarrow> string \<Rightarrow> string list" where
  "Values h key = (case h key of None \<Rightarrow> [] | Some vs \<Rightarrow> vs)"

definition Add :: "Header \<Rightarrow> string \<Rightarrow> string \<Rightarrow> Header" where
  "Add h key v = h(key \<mapsto> (case h key of None \<Rightarrow> [v] | Some vs \<Rightarrow> vs @ [v]))"

definition Set :: "Header \<Rightarrow> string \<Rightarrow> string \<Rightarrow> Header" where
  "Set h key v = h(key \<mapsto> [v])"

text \<open>The parts of \<^verbatim>\<open>*http.Request\<close> that the package reads: \<^verbatim>\<open>r.Method\<close>,
  \<^verbatim>\<open>r.URL.Path\<close> and \<^verbatim>\<open>r.Header\<close>.\<close>

record request =
  req_Method :: string
  URL_Path :: string
  req_Header :: Header

text \<open>
  The response sink \<^verbatim>\<open>http.ResponseWriter\<close>, as a recorder of what the handler has
  produced so far (the repository's tests use \<^verbatim>\<open>httptest.ResponseRecorder\<close>): the header
  map, the status once it is written, and the body. \<^verbatim>\<open>Write\<close> sends status 200 first
  when no status was written, and appends the bytes. A connection that breaks while the
  body is written is not part of this model.
\<close>

record response =
  header :: Header
  status :: "nat option"
  body :: "byte list"

definition Write :: "response \<Rightarrow> byte list \<Rightarrow> response" where
  "Write w p =
     w\<lparr>status := (case status w of None \<Rightarrow> Some 200 | Some c \<Rightarrow> Some c),
       body := body w @ p\<rparr>"

text \<open>
  \<^verbatim>\<open>io.CopyBuffer(dst, src, buf)\<close> for a buffer of \<open>n\<close> bytes: read into the buffer,
  write what was read, and stop at the first error of the source (\<^verbatim>\<open>io.EOF\<close> is the
  regular end and is not reported). Go panics on an empty buffer; that is the first
  branch. The result is the sink with the error, if any.
\<close>

function CopyBuffer :: "response \<Rightarrow> reader \<Rightarrow> nat \<Rightarrow> response \<times> error option" where
  "CopyBuffer dst src n =
     (if n = 0 then (dst, Some (Error ''empty buffer in CopyBuffer''))
      else case Read src n of
             (p, Some er, src') \<Rightarrow>
               (if p = [] then dst else Write dst p, if er = EOF then None else Some er)
           | (p, None, src') \<Rightarrow>
               CopyBuffer (if p = [] then dst else Write dst p) src' n)"
  by pat_completeness auto
termination
proof (relation "measure (\<lambda>(dst, src, n). length (data src))")
  show "wf (measure (\<lambda>(dst, src, n). length (data src)))"
    by simp
next
  fix dst :: response and src src' :: reader and n :: nat and p y er
  assume n: "n \<noteq> 0" and x: "(p, y) = Read src n" and y: "(er, src') = y" "er = None"
  from x y have rd: "Read src n = (p, None, src')"
    by simp
  then have nonempty: "data src \<noteq> []"
    by (auto simp: Read_def split: if_splits)
  define k where "k = min n (case limits src of [] \<Rightarrow> length (data src)
                                            | l # _ \<Rightarrow> min (Suc l) (length (data src)))"
  have "0 < k"
    using n nonempty by (cases "limits src") (auto simp: k_def)
  moreover have "data src' = drop k (data src)"
    using rd nonempty by (auto simp: Read_def k_def Let_def)
  ultimately have "length (data src') < length (data src)"
    using nonempty by simp
  then show "((if p = [] then dst else Write dst p, src', n), dst, src, n)
             \<in> measure (\<lambda>(dst, src, n). length (data src))"
    by simp
qed

subsection \<open>The archive\<close>

text \<open>
  \<^verbatim>\<open>time.Time\<close>: an instant with the zone it is shown in; \<^verbatim>\<open>UTC\<close> keeps the instant
  and sets the zone. \<^verbatim>\<open>http.TimeFormat\<close> is the layout of an HTTP date.
\<close>

record time =
  unix :: int
  loc :: string

definition UTC :: "time \<Rightarrow> time" where
  "UTC t = t\<lparr>loc := ''UTC''\<rparr>"

definition TimeFormat :: string where
  "TimeFormat = ''Mon, 02 Jan 2006 15:04:05 GMT''"

text \<open>
  \<^verbatim>\<open>zip.File\<close>: the header fields the package reads, and what the two ways of opening
  the entry answer: \<open>Open\<close> the decompressing stream, \<open>OpenRaw\<close> the stream of the
  bytes as stored. \<^verbatim>\<open>zip.Reader\<close>: the entries in archive order, and what opening a
  name through the archive's file-system view answers.
\<close>

record zip_File =
  Name :: string
  Method :: "16 word"
  CompressedSize64 :: "64 word"
  Modified :: time
  Open :: "error + ReadCloser"
  OpenRaw :: "error + reader"

record zip_Reader =
  File :: "zip_File list"
  Open_name :: "string \<Rightarrow> error + ReadCloser"

definition Store :: "16 word" where
  "Store = 0"

definition Deflate :: "16 word" where
  "Deflate = 8"

subsection \<open>The seekable adapter\<close>

text \<open>
  \<^verbatim>\<open>seekableFile\<close> embeds the \<^verbatim>\<open>fs.File\<close> it wraps (field \<open>fs_File\<close>) and keeps the
  archive and the entry's name. \<open>zr\<close> is a pointer in the source: the field stands for
  the archive as it answers when the method runs. Each method returns the adapter as it
  has left it.
\<close>

record seekableFile =
  fs_File :: ReadCloser
  zr :: zip_Reader
  name :: string




definition seekableFile_Close :: "seekableFile \<Rightarrow> error option \<times> seekableFile" where
  "seekableFile_Close f = (case Close (fs_File f) of (er, h) \<Rightarrow> (er, f\<lparr>fs_File := h\<rparr>))"

text \<open>The two kinds of \<^verbatim>\<open>fs.File\<close> that reach the file server, and a file system as
  its \<^verbatim>\<open>Open\<close> method.\<close>

datatype fs_File = PlainFile ReadCloser | SeekableFile seekableFile

type_synonym fsys = "string \<Rightarrow> error + fs_File"

definition zip_FS :: "zip_Reader \<Rightarrow> fsys" where
  "zip_FS z fname = (case Open_name z fname of Inl err \<Rightarrow> Inl err | Inr file \<Rightarrow> Inr (PlainFile file))"

definition seekableFS_Open :: "zip_Reader \<Rightarrow> fsys" where
  "seekableFS_Open s fname =
     (case Open_name s fname of
        Inl err \<Rightarrow> Inl err
      | Inr file \<Rightarrow> Inr (SeekableFile \<lparr>fs_File = file, zr = s, name = fname\<rparr>))"

subsection \<open>The handler\<close>

text \<open>The library functions that stay parameters.\<close>

record env =
  TypeByExtension :: "string \<Rightarrow> string"
  DetectContentType :: "byte list \<Rightarrow> string"
  Format :: "time \<Rightarrow> string \<Rightarrow> string"
  FileServer :: "fsys \<Rightarrow> response \<Rightarrow> request \<Rightarrow> response"

text \<open>\<^verbatim>\<open>conjureContentType\<close>. The stream it opens is local and closed on return, so
  only the type is returned.\<close>

definition conjureContentType :: "env \<Rightarrow> zip_File \<Rightarrow> string" where
  "conjureContentType e zf =
     (let s = TypeByExtension e (Ext (Name zf)) in
      if s \<noteq> '''' then s
      else case Open zf of
             Inl err \<Rightarrow> ''application/octet-stream''
           | Inr rc \<Rightarrow> (case ReadCloser_Read rc 512 of (b, _, _) \<Rightarrow> DetectContentType e b))"

text \<open>
  The loop of \<^verbatim>\<open>Handler\<close> over \<^verbatim>\<open>z.File\<close>: \<open>i\<close> is the position of the next entry,
  \<open>m\<close> the map from names to positions built so far.
\<close>

fun index_loop :: "zip_File list \<Rightarrow> nat \<Rightarrow> (string \<rightharpoonup> nat) \<Rightarrow> (string \<rightharpoonup> nat)" where
  "index_loop [] i m = m"
| "index_loop (f # fs) i m =
     index_loop fs (Suc i) (if Method f \<noteq> Deflate then m else m(Name f \<mapsto> i))"

definition deflate_index :: "zip_Reader \<Rightarrow> (string \<rightharpoonup> nat)" where
  "deflate_index z = index_loop (File z) 0 Map.empty"

text \<open>The closure \<^verbatim>\<open>fallbackServe\<close>, with the two file servers it chooses from.\<close>

definition srv :: "env \<Rightarrow> zip_Reader \<Rightarrow> response \<Rightarrow> request \<Rightarrow> response" where
  "srv e z = FileServer e (zip_FS z)"

definition srvSeek0 :: "env \<Rightarrow> zip_Reader \<Rightarrow> response \<Rightarrow> request \<Rightarrow> response" where
  "srvSeek0 e z = FileServer e (seekableFS_Open z)"

definition fallbackServe :: "env \<Rightarrow> zip_Reader \<Rightarrow> response \<Rightarrow> request \<Rightarrow> response" where
  "fallbackServe e z w r =
     (if TypeByExtension e (Ext (URL_Path r)) = '''' then srvSeek0 e z w r else srv e z w r)"

text \<open>The buffers of \<^verbatim>\<open>bufPool\<close> hold 32 KiB.\<close>

definition bufLen :: nat where
  "bufLen = 32 * 1024"

text \<open>
  The \<^verbatim>\<open>http.HandlerFunc\<close> that \<^verbatim>\<open>Handler\<close> returns for a non-empty index \<open>m\<close>.
  \<^verbatim>\<open>z.File[i]\<close> is read at positions taken from \<open>m\<close> only.
\<close>

definition lookup_key :: "request \<Rightarrow> string" where
  "lookup_key r = (let key = TrimPrefix (URL_Path r) ''/'' in if key = '''' then ''index.html'' else key)"

definition serve :: "env \<Rightarrow> zip_Reader \<Rightarrow> (string \<rightharpoonup> nat) \<Rightarrow> response \<Rightarrow> request \<Rightarrow> response" where
  "serve e z m w0 r =
     (let w1 = w0\<lparr>header := Add (header w0) ''Vary'' ''Accept-Encoding''\<rparr>;
          w = w1\<lparr>header := Set (header w1) ''Accept-Ranges'' ''none''\<rparr>
      in if req_Method r \<noteq> ''GET'' \<or>
            Get (req_Header r) ''Range'' \<noteq> '''' \<or>
            \<not> Contains (Get (req_Header r) ''Accept-Encoding'') ''deflate''
         then fallbackServe e z w r
         else case m (lookup_key r) of
                None \<Rightarrow> fallbackServe e z w r
              | Some i \<Rightarrow>
                  (case OpenRaw (File z ! i) of
                     Inl err \<Rightarrow> fallbackServe e z w r
                   | Inr rd \<Rightarrow>
                       (let w2 = w\<lparr>header := Set (header w) ''Content-Type''
                                     (conjureContentType e (File z ! i))\<rparr>;
                            w3 = w2\<lparr>header := Set (header w2) ''Content-Length''
                                     (FormatUint (CompressedSize64 (File z ! i)) 10)\<rparr>;
                            w4 = w3\<lparr>header := Set (header w3) ''Content-Encoding'' ''deflate''\<rparr>;
                            w5 = w4\<lparr>header := Set (header w4) ''Last-Modified''
                                     (Format e (UTC (Modified (File z ! i))) TimeFormat)\<rparr>
                        in fst (CopyBuffer w5 rd bufLen))))"

definition Handler :: "env \<Rightarrow> zip_Reader \<Rightarrow> response \<Rightarrow> request \<Rightarrow> response" where
  "Handler e z =
     (let m = deflate_index z in
      if dom m = {} then srv e z else serve e z m)"

text \<open>The response as the router hands it on, after its first two statements.\<close>

abbreviation marked :: "response \<Rightarrow> response" where
  "marked w \<equiv>
     w\<lparr>header := Set (Add (header w) ''Vary'' ''Accept-Encoding'') ''Accept-Ranges'' ''none''\<rparr>"

subsection \<open>Example data\<close>

text \<open>
  A small archive in the shape of the one the repository's tests build: \<^verbatim>\<open>LICENSE.txt\<close>
  twice under the Deflate method and once stored, and \<^verbatim>\<open>unknown\<close> (a name without
  extension) whose raw stream cannot be opened. The environment knows the extension
  \<^verbatim>\<open>.txt\<close> only, and its file server answers 404 for a name the file system cannot open
  and copies the file otherwise.
\<close>

definition example_raw :: reader where
  "example_raw = \<lparr>data = [0xCB, 0xC8, 0x04, 0x00], fault = None, limits = [0, 1]\<rparr>"

definition example_content :: ReadCloser where
  "example_content =
     \<lparr>stream = \<lparr>data = [0x68, 0x69], fault = None, limits = []\<rparr>, closed = False, close_err = None,
      nop_close = False\<rparr>"

definition example_archive :: zip_Reader where
  "example_archive =
     \<lparr>File =
        [\<lparr>Name = ''LICENSE.txt'', Method = Deflate, CompressedSize64 = 9,
          Modified = \<lparr>unix = 0, loc = ''Local''\<rparr>,
          Open = Inl (Error ''zip: checksum error''), OpenRaw = Inl (Error ''unexpected EOF'')\<rparr>,
         \<lparr>Name = ''unknown'', Method = Deflate, CompressedSize64 = 4,
          Modified = \<lparr>unix = 0, loc = ''Local''\<rparr>,
          Open = Inr example_content, OpenRaw = Inl (Error ''unexpected EOF'')\<rparr>,
         \<lparr>Name = ''LICENSE.txt'', Method = Deflate, CompressedSize64 = 4,
          Modified = \<lparr>unix = 0, loc = ''Local''\<rparr>,
          Open = Inr example_content, OpenRaw = Inr example_raw\<rparr>,
         \<lparr>Name = ''LICENSE.txt'', Method = Store, CompressedSize64 = 2,
          Modified = \<lparr>unix = 0, loc = ''Local''\<rparr>,
          Open = Inr example_content, OpenRaw = Inr example_raw\<rparr>],
      Open_name = (\<lambda>fname. if fname = ''LICENSE.txt'' \<or> fname = ''unknown''
                           then Inr example_content else Inl (Error ''file does not exist''))\<rparr>"

definition damaged_entry :: zip_File where
  "damaged_entry =
     \<lparr>Name = ''docs/v1.2/README'', Method = Deflate, CompressedSize64 = 4,
      Modified = \<lparr>unix = 0, loc = ''Local''\<rparr>,
      Open = Inl (Error ''zip: unsupported compression algorithm''), OpenRaw = Inr example_raw\<rparr>"

definition stored_archive :: zip_Reader where
  "stored_archive =
     \<lparr>File =
        [\<lparr>Name = ''LICENSE.txt'', Method = Store, CompressedSize64 = 2,
          Modified = \<lparr>unix = 0, loc = ''Local''\<rparr>,
          Open = Inr example_content, OpenRaw = Inr example_raw\<rparr>],
      Open_name = (\<lambda>fname. if fname = ''LICENSE.txt''
                           then Inr example_content else Inl (Error ''file does not exist''))\<rparr>"


definition example_FileServer :: "fsys \<Rightarrow> response \<Rightarrow> request \<Rightarrow> response" where
  "example_FileServer fsys w r =
     (case fsys (TrimPrefix (URL_Path r) ''/'') of
        Inl err \<Rightarrow> w\<lparr>status := Some 404\<rparr>
      | Inr (PlainFile rc) \<Rightarrow> fst (CopyBuffer w (stream rc) 512)
      | Inr (SeekableFile f) \<Rightarrow> fst (CopyBuffer w (stream (fs_File f)) 512))"

definition example_env :: env where
  "example_env =
     \<lparr>TypeByExtension = (\<lambda>ext. if ext = ''.txt'' then ''text/plain; charset=utf-8'' else ''''),
      DetectContentType = (\<lambda>b. if b = [] \<or> b = [0x68, 0x69] then ''text/plain; charset=utf-8''
                                else ''application/octet-stream''),
      Format = (\<lambda>t layout. if unix t = 0 \<and> loc t = ''UTC'' \<and> layout = TimeFormat
                             then ''Thu, 01 Jan 1970 00:00:00 GMT'' else ''''),
      FileServer = example_FileServer\<rparr>"

definition empty_response :: response where
  "empty_response = \<lparr>header = Map.empty, status = None, body = []\<rparr>"

definition get_request :: "string \<Rightarrow> string \<Rightarrow> request" where
  "get_request p accept =
     \<lparr>req_Method = ''GET'', URL_Path = p, req_Header = [''Accept-Encoding'' \<mapsto> [accept]]\<rparr>"





section \<open>Properties\<close>

subsection \<open>Auxiliary facts\<close>

declare CopyBuffer.simps [simp del] formatBits.simps [simp del]

text \<open>\<^verbatim>\<open>strings.Contains\<close> is the substring relation.\<close>

lemma Contains_iff: "Contains s substr \<longleftrightarrow> (\<exists>a b. s = a @ substr @ b)"
proof (induction s)
  case Nil
  then show ?case by auto
next
  case (Cons c s)
  show ?case
  proof
    assume "Contains (c # s) substr"
    then consider "prefix substr (c # s)" | "Contains s substr" by auto
    then show "\<exists>a b. c # s = a @ substr @ b"
    proof cases
      case 1
      then obtain b where "c # s = substr @ b" by (auto simp: prefix_def)
      then have "c # s = [] @ substr @ b" by simp
      then show ?thesis by blast
    next
      case 2
      with Cons.IH obtain a b where "s = a @ substr @ b" by blast
      then have "c # s = (c # a) @ substr @ b" by simp
      then show ?thesis by blast
    qed
  next
    assume "\<exists>a b. c # s = a @ substr @ b"
    then obtain a b where ab: "c # s = a @ substr @ b" by blast
    show "Contains (c # s) substr"
    proof (cases a)
      case Nil
      with ab have "prefix substr (c # s)" by (simp add: prefix_def)
      then show ?thesis by simp
    next
      case (Cons x a')
      with ab have "s = a' @ substr @ b" by simp
      with Cons.IH have "Contains s substr" by blast
      then show ?thesis by simp
    qed
  qed
qed

text \<open>A decimal numeral produced by \<open>formatBits\<close> reads back as the number.\<close>

lemma digit_val_digit: "d < 10 \<Longrightarrow> digit_val (digit d) = d"
proof -
  assume "d < 10"
  then consider "d = 0" | "d = 1" | "d = 2" | "d = 3" | "d = 4" | "d = 5" | "d = 6" | "d = 7" | "d = 8" | "d = 9"
    by atomize_elim arith
  then show ?thesis
    by cases (simp_all add: digit_def digit_val_def)
qed

lemma decimal_value_snoc: "decimal_value (s @ [c]) = decimal_value s * 10 + digit_val c"
  by (simp add: decimal_value_def)

lemma decimal_value_formatBits: "decimal_value (formatBits n 10) = n"
proof (induction n "10::nat" rule: formatBits.induct)
  case (1 n)
  show ?case
  proof (cases "n < 10")
    case True
    then show ?thesis
      by (subst formatBits.simps) (simp add: decimal_value_def digit_val_digit)
  next
    case False
    with 1 have "decimal_value (formatBits (n div 10) 10) = n div 10" by simp
    with False show ?thesis
      by (subst formatBits.simps) (simp add: decimal_value_snoc digit_val_digit)
  qed
qed

text \<open>The index loop, one entry more at the end; its keys; the entry a key maps to.\<close>

lemma index_loop_snoc:
  "index_loop (fs @ [f]) i m =
     (if Method f \<noteq> Deflate then index_loop fs i m else (index_loop fs i m)(Name f \<mapsto> i + length fs))"
  by (induction fs arbitrary: i m) auto

lemma index_loop_dom:
  "dom (index_loop fs i m) = dom m \<union> {Name f |f. f \<in> set fs \<and> Method f = Deflate}"
  by (induction fs arbitrary: i m) auto

lemma index_loop_last:
  assumes "index_loop fs 0 Map.empty k = Some i"
  shows "i < length fs \<and> Name (fs ! i) = k \<and> Method (fs ! i) = Deflate \<and>
         (\<forall>j. i < j \<and> j < length fs \<and> Name (fs ! j) = k \<longrightarrow> Method (fs ! j) \<noteq> Deflate)"
  using assms
proof (induction fs arbitrary: i rule: rev_induct)
  case Nil
  then show ?case by simp
next
  case (snoc f fs)
  show ?case
  proof (cases "Method f = Deflate \<and> Name f = k")
    case True
    with snoc.prems have "i = length fs" by (simp add: index_loop_snoc)
    with True show ?thesis by (auto simp: nth_append)
  next
    case False
    with snoc.prems have "index_loop fs 0 Map.empty k = Some i"
      by (auto simp: index_loop_snoc split: if_splits)
    from snoc.IH[OF this] False show ?thesis
      by (auto simp: nth_append less_Suc_eq)
  qed
qed

lemma index_nonempty: "deflate_index z k = Some i \<Longrightarrow> dom (deflate_index z) \<noteq> {}"
  by auto

text \<open>The copy loop delivers all the bytes of the source, in order, whatever the sizes
  of the single reads, and leaves the headers alone.\<close>

lemma CopyBuffer_result:
  "0 < n \<Longrightarrow>
   body (fst (CopyBuffer dst src n)) = body dst @ data src \<and>
   header (fst (CopyBuffer dst src n)) = header dst \<and>
   status (fst (CopyBuffer dst src n)) =
     (if data src = [] then status dst else Some (case status dst of None \<Rightarrow> 200 | Some c \<Rightarrow> c))"
proof (induction dst src n rule: CopyBuffer.induct)
  case (1 dst src n)
  show ?case
  proof (cases "data src = []")
    case True
    then show ?thesis
      using 1(2) by (subst CopyBuffer.simps, simp add: Read_def)+
  next
    case False
    define k where "k = min n (case limits src of [] \<Rightarrow> length (data src)
                                            | l # _ \<Rightarrow> min (Suc l) (length (data src)))"
    define src' where "src' = src\<lparr>data := drop k (data src), limits := tl (limits src)\<rparr>"
    have k: "0 < k"
      using 1(2) False by (cases "limits src") (auto simp: k_def)
    have rd: "Read src n = (take k (data src), None, src')"
      using False by (simp add: Read_def k_def src'_def Let_def)
    have ne: "take k (data src) \<noteq> []"
      using k False by simp
    have step: "CopyBuffer dst src n = CopyBuffer (Write dst (take k (data src))) src' n"
      using 1(2) rd ne by (subst CopyBuffer.simps) simp
    have IH: "body (fst (CopyBuffer (Write dst (take k (data src))) src' n)) = body (Write dst (take k (data src))) @ data src' \<and>
   header (fst (CopyBuffer (Write dst (take k (data src))) src' n)) = header (Write dst (take k (data src))) \<and>
   status (fst (CopyBuffer (Write dst (take k (data src))) src' n)) =
     (if data src' = [] then status (Write dst (take k (data src))) else Some (case status (Write dst (take k (data src))) of None \<Rightarrow> 200 | Some c \<Rightarrow> c))"
      using 1(1)[OF _ rd[symmetric] refl refl] 1(2) ne by simp
    show ?thesis
      unfolding step using IH False
      by (auto simp: Write_def src'_def split: option.splits)
  qed
qed

lemma bufLen_pos: "0 < bufLen"
  by (simp add: bufLen_def)

text \<open>Reading from a closable stream.\<close>

lemma ReadCloser_Read_prefix:
  "prefix (fst (ReadCloser_Read rc n)) (data (stream rc)) \<and> length (fst (ReadCloser_Read rc n)) \<le> n"
  by (auto simp: ReadCloser_Read_def Read_def Let_def take_is_prefix split: prod.splits)






text \<open>The two forms of the handler, and the router by the kind of request.\<close>

lemma Handler_nonempty:
  "dom (deflate_index z) \<noteq> {} \<Longrightarrow> Handler e z = serve e z (deflate_index z)"
  by (simp add: Handler_def Let_def)

lemma Handler_empty:
  "dom (deflate_index z) = {} \<Longrightarrow> Handler e z = srv e z"
  by (simp add: Handler_def Let_def)

lemma serve_ineligible:
  "req_Method r \<noteq> ''GET'' \<or> Get (req_Header r) ''Range'' \<noteq> [] \<or>
   \<not> Contains (Get (req_Header r) ''Accept-Encoding'') ''deflate'' \<Longrightarrow>
   serve e z m w r = fallbackServe e z (marked w) r"
  by (auto simp: serve_def Let_def)

lemma serve_eligible:
  "req_Method r = ''GET'' \<Longrightarrow> Get (req_Header r) ''Range'' = [] \<Longrightarrow>
   Contains (Get (req_Header r) ''Accept-Encoding'') ''deflate'' \<Longrightarrow>
   serve e z m w r =
     (case m (lookup_key r) of
        None \<Rightarrow> fallbackServe e z (marked w) r
      | Some i \<Rightarrow>
          (case OpenRaw (File z ! i) of
             Inl err \<Rightarrow> fallbackServe e z (marked w) r
           | Inr rd \<Rightarrow>
               fst (CopyBuffer
                 ((marked w)\<lparr>header :=
                    Set (Set (Set (Set (header (marked w)) ''Content-Type'' (conjureContentType e (File z ! i)))
                      ''Content-Length'' (FormatUint (CompressedSize64 (File z ! i)) 10))
                      ''Content-Encoding'' ''deflate'')
                      ''Last-Modified'' (Format e (UTC (Modified (File z ! i))) TimeFormat)\<rparr>)
                 rd bufLen)))"
  by (simp add: serve_def Let_def split: option.splits sum.splits)


lemma lookup_key_cases:
  "lookup_key r =
     (let key = (case URL_Path r of [] \<Rightarrow> [] | c # rest \<Rightarrow> if c = CHR ''/'' then rest else c # rest)
      in if key = [] then ''index.html'' else key)"
  by (cases "URL_Path r") (auto simp: lookup_key_def TrimPrefix_def HasPrefix_def Let_def)

text \<open>The example data, evaluated.\<close>

lemma example_index:
  "deflate_index example_archive ''LICENSE.txt'' = Some 2"
  "deflate_index example_archive ''unknown'' = Some 1"
  by (simp_all add: deflate_index_def example_archive_def Deflate_def Store_def)

lemma example_request_eval:
  "req_Method (get_request p a) = ''GET''"
  "Get (req_Header (get_request p a)) ''Range'' = []"
  "Get (req_Header (get_request p a)) ''Accept-Encoding'' = a"
  "URL_Path (get_request p a) = p"
  by (simp_all add: get_request_def Get_def)

lemma Ext_examples:
  "Ext ''LICENSE.txt'' = ''.txt''" "Ext ''unknown'' = []" "Ext ''docs/v1.2/README'' = []"
  "Ext ''/LICENSE.txt'' = ''.txt''" "Ext ''/unknown'' = []"
  by (simp_all add: Ext_def)

subsection \<open>The fast path\<close>

text \<open>
  C1. A GET request without Range header whose Accept-Encoding contains \<^verbatim>\<open>deflate\<close>
  (both headers as \<^verbatim>\<open>Header.Get\<close> reads them: the first value, empty when there is none),
  whose key is in the index and whose entry's raw stream opens, gets the headers
  Content-Type (the value of \<^verbatim>\<open>conjureContentType\<close> for the entry), Content-Length (the
  decimal numeral of the entry's compressed size), Content-Encoding \<^verbatim>\<open>deflate\<close> and
  Last-Modified (the entry's modification time, moved to UTC, in the HTTP date layout),
  and the bytes of the raw stream are appended unchanged to the response body.
\<close>

theorem fast_path_response:
  assumes "req_Method r = ''GET''"
    and "Get (req_Header r) ''Range'' = []"
    and "Contains (Get (req_Header r) ''Accept-Encoding'') ''deflate''"
    and "deflate_index z (lookup_key r) = Some i"
    and "OpenRaw (File z ! i) = Inr rd"
  shows "header (Handler e z w r) ''Content-Type'' = Some [conjureContentType e (File z ! i)] \<and>
         header (Handler e z w r) ''Content-Length'' =
           Some [FormatUint (CompressedSize64 (File z ! i)) 10] \<and>
         decimal_value (FormatUint (CompressedSize64 (File z ! i)) 10) =
           unat (CompressedSize64 (File z ! i)) \<and>
         header (Handler e z w r) ''Content-Encoding'' = Some [''deflate''] \<and>
         header (Handler e z w r) ''Last-Modified'' =
           Some [Format e (UTC (Modified (File z ! i))) TimeFormat] \<and>
         body (Handler e z w r) = body w @ data rd"
proof -
  have "Handler e z w r = serve e z (deflate_index z) w r"
    using index_nonempty [OF assms(4)] by (simp add: Handler_def Let_def)
  then show ?thesis
    using assms CopyBuffer_result [OF bufLen_pos]
    by (simp add: serve_def Let_def Set_def FormatUint_def decimal_value_formatBits)
qed

theorem fast_path_response_witness:
  "req_Method (get_request ''/LICENSE.txt'' ''gzip, deflate, br'') = ''GET'' \<and>
   Get (req_Header (get_request ''/LICENSE.txt'' ''gzip, deflate, br'')) ''Range'' = [] \<and>
   Contains (Get (req_Header (get_request ''/LICENSE.txt'' ''gzip, deflate, br'')) ''Accept-Encoding'')
     ''deflate'' \<and>
   deflate_index example_archive (lookup_key (get_request ''/LICENSE.txt'' ''gzip, deflate, br'')) = Some 2 \<and>
   OpenRaw (File example_archive ! 2) = Inr example_raw \<and>
   header (Handler example_env example_archive empty_response
             (get_request ''/LICENSE.txt'' ''gzip, deflate, br''))
     ''Content-Type'' = Some [''text/plain; charset=utf-8''] \<and>
   header (Handler example_env example_archive empty_response
             (get_request ''/LICENSE.txt'' ''gzip, deflate, br''))
     ''Content-Length'' = Some [''4''] \<and>
   header (Handler example_env example_archive empty_response
             (get_request ''/LICENSE.txt'' ''gzip, deflate, br''))
     ''Content-Encoding'' = Some [''deflate''] \<and>
   header (Handler example_env example_archive empty_response
             (get_request ''/LICENSE.txt'' ''gzip, deflate, br''))
     ''Last-Modified'' = Some [''Thu, 01 Jan 1970 00:00:00 GMT''] \<and>
   body (Handler example_env example_archive empty_response
           (get_request ''/LICENSE.txt'' ''gzip, deflate, br''))
     = [0xCB, 0xC8, 0x04, 0x00]"
proof -
  let ?r = "get_request ''/LICENSE.txt'' ''gzip, deflate, br''"
  have h1: "req_Method ?r = ''GET''" and h2: "Get (req_Header ?r) ''Range'' = []"
    by (simp_all add: example_request_eval)
  have h3: "Contains (Get (req_Header ?r) ''Accept-Encoding'') ''deflate''"
    by (simp add: example_request_eval)
  have key: "lookup_key ?r = ''LICENSE.txt''"
    by (simp add: lookup_key_def TrimPrefix_def HasPrefix_def example_request_eval)
  have h4: "deflate_index example_archive (lookup_key ?r) = Some 2"
    by (simp add: key example_index)
  have h5: "OpenRaw (File example_archive ! 2) = Inr example_raw"
    by (simp add: example_archive_def)
  have ct: "conjureContentType example_env (File example_archive ! 2) = ''text/plain; charset=utf-8''"
    by (simp add: conjureContentType_def example_archive_def example_env_def Ext_examples)
  have cl: "FormatUint (CompressedSize64 (File example_archive ! 2)) 10 = ''4''"
    by (simp add: example_archive_def FormatUint_def formatBits.simps [of 4 10] digit_def)
  have lm: "Format example_env (UTC (Modified (File example_archive ! 2))) TimeFormat =
              ''Thu, 01 Jan 1970 00:00:00 GMT''"
    by (simp add: example_archive_def example_env_def UTC_def)
  from fast_path_response [OF h1 h2 h3 h4 h5, of example_env empty_response] h1 h2 h3 h4 h5
  show ?thesis
    by (simp add: ct cl lm empty_response_def example_raw_def)
qed

subsection \<open>Requests that are not eligible\<close>




subsection \<open>The headers Vary and Accept-Ranges\<close>

text \<open>
  C3. That every response carries Vary with \<^verbatim>\<open>Accept-Encoding\<close> and Accept-Ranges
  \<^verbatim>\<open>none\<close>, whatever the archive holds, does not hold: for an archive without any
  Deflate entry the constructor returns the plain file server itself, and the two headers
  are never set. Here the archive holds one stored entry, and the response to a GET for it
  has no Vary value and no Accept-Ranges header.
\<close>

theorem headers_counterexample:
  "\<not> (''Accept-Encoding'' \<in> set (Values (header (Handler example_env stored_archive empty_response
                                                     (get_request ''/LICENSE.txt'' ''gzip, deflate, br'')))
                                       ''Vary'') \<and>
      header (Handler example_env stored_archive empty_response
                (get_request ''/LICENSE.txt'' ''gzip, deflate, br'')) ''Accept-Ranges'' = Some [''none''])"
proof -
  have "dom (deflate_index stored_archive) = {}"
    by (simp add: deflate_index_def stored_archive_def Deflate_def Store_def)
  then have "Handler example_env stored_archive = srv example_env stored_archive"
    by (rule Handler_empty)
  moreover have "header (srv example_env stored_archive empty_response
                   (get_request ''/LICENSE.txt'' ''gzip, deflate, br'')) = Map.empty"
    using CopyBuffer_result [of 512 empty_response "stream example_content"]
    by (simp add: srv_def example_env_def example_FileServer_def zip_FS_def stored_archive_def
        TrimPrefix_def HasPrefix_def get_request_def empty_response_def)
  ultimately show ?thesis
    by (simp add: Values_def)
qed

text \<open>
  C3, for archives with a Deflate entry. When the archive has at least one Deflate entry,
  the handler first appends
  \<^verbatim>\<open>Accept-Encoding\<close> to Vary and sets Accept-Ranges to \<^verbatim>\<open>none\<close>. A response of the fast
  path carries both headers; on every other path the request goes to \<^verbatim>\<open>fallbackServe\<close>
  with a response that carries both.
\<close>

theorem headers_when_indexed:
  assumes "\<exists>f \<in> set (File z). Method f = Deflate"
  shows "''Accept-Encoding'' \<in> set (Values (header (marked w)) ''Vary'') \<and>
         header (marked w) ''Accept-Ranges'' = Some [''none''] \<and>
         (if req_Method r = ''GET'' \<and> Get (req_Header r) ''Range'' = [] \<and>
             Contains (Get (req_Header r) ''Accept-Encoding'') ''deflate'' \<and>
             (\<exists>i rd. deflate_index z (lookup_key r) = Some i \<and> OpenRaw (File z ! i) = Inr rd)
          then ''Accept-Encoding'' \<in> set (Values (header (Handler e z w r)) ''Vary'') \<and>
               header (Handler e z w r) ''Accept-Ranges'' = Some [''none'']
          else Handler e z w r = fallbackServe e z (marked w) r)"
proof -
  from assms have "dom (deflate_index z) \<noteq> {}"
    by (auto simp: deflate_index_def index_loop_dom)
  then have H: "Handler e z w r = serve e z (deflate_index z) w r"
    by (simp add: Handler_nonempty)
  have m: "''Accept-Encoding'' \<in> set (Values (header (marked w)) ''Vary'')"
          "header (marked w) ''Accept-Ranges'' = Some [''none'']"
    by (simp_all add: Set_def Add_def Values_def split: option.splits)
  show ?thesis
  proof (cases "req_Method r = ''GET'' \<and> Get (req_Header r) ''Range'' = [] \<and>
                Contains (Get (req_Header r) ''Accept-Encoding'') ''deflate''")
    case False
    then have "serve e z (deflate_index z) w r = fallbackServe e z (marked w) r"
      by (intro serve_ineligible) auto
    with False H m show ?thesis by auto
  next
    case True
    then have S: "serve e z (deflate_index z) w r =
      (case deflate_index z (lookup_key r) of
        None \<Rightarrow> fallbackServe e z (marked w) r
      | Some i \<Rightarrow>
          (case OpenRaw (File z ! i) of
             Inl err \<Rightarrow> fallbackServe e z (marked w) r
           | Inr rd \<Rightarrow>
               fst (CopyBuffer
                 ((marked w)\<lparr>header :=
                    Set (Set (Set (Set (header (marked w)) ''Content-Type'' (conjureContentType e (File z ! i)))
                      ''Content-Length'' (FormatUint (CompressedSize64 (File z ! i)) 10))
                      ''Content-Encoding'' ''deflate'')
                      ''Last-Modified'' (Format e (UTC (Modified (File z ! i))) TimeFormat)\<rparr>)
                 rd bufLen)))"
      by (simp add: serve_eligible)
    show ?thesis
    proof (cases "\<exists>i rd. deflate_index z (lookup_key r) = Some i \<and> OpenRaw (File z ! i) = Inr rd")
      case False
      then have "serve e z (deflate_index z) w r = fallbackServe e z (marked w) r"
        unfolding S by (auto split: option.splits sum.splits)
      with False H m show ?thesis by auto
    next
      case fast: True
      then obtain i rd where ird: "deflate_index z (lookup_key r) = Some i" "OpenRaw (File z ! i) = Inr rd"
        by blast
      have "header (Handler e z w r) ''Vary'' = header (marked w) ''Vary'' \<and>
            header (Handler e z w r) ''Accept-Ranges'' = header (marked w) ''Accept-Ranges''"
        unfolding H S using ird CopyBuffer_result [OF bufLen_pos]
        by (simp add: Set_def)
      with True fast m show ?thesis
        by (simp add: Values_def)
    qed
  qed
qed

theorem headers_when_indexed_witness:
  "(\<exists>f \<in> set (File example_archive). Method f = Deflate) \<and>
   ''Accept-Encoding'' \<in> set (Values (header (Handler example_env example_archive empty_response
                                               (get_request ''/LICENSE.txt'' ''deflate''))) ''Vary'') \<and>
   header (Handler example_env example_archive empty_response (get_request ''/LICENSE.txt'' ''deflate''))
     ''Accept-Ranges'' = Some [''none''] \<and>
   Handler example_env example_archive empty_response (get_request ''/unknown'' ''gzip'') =
     fallbackServe example_env example_archive (marked empty_response) (get_request ''/unknown'' ''gzip'')"
proof -
  let ?r = "get_request ''/LICENSE.txt'' ''deflate''"
  let ?q = "get_request ''/unknown'' ''gzip''"
  have h: "\<exists>f \<in> set (File example_archive). Method f = Deflate"
    by (simp add: example_archive_def)
  have key: "lookup_key ?r = ''LICENSE.txt''"
    by (simp add: lookup_key_def TrimPrefix_def HasPrefix_def example_request_eval)
  have fast: "req_Method ?r = ''GET'' \<and> Get (req_Header ?r) ''Range'' = [] \<and>
              Contains (Get (req_Header ?r) ''Accept-Encoding'') ''deflate'' \<and>
              (\<exists>i rd. deflate_index example_archive (lookup_key ?r) = Some i \<and>
                       OpenRaw (File example_archive ! i) = Inr rd)"
    by (simp add: example_request_eval key example_index) (simp add: example_archive_def)
  have slow: "\<not> (req_Method ?q = ''GET'' \<and> Get (req_Header ?q) ''Range'' = [] \<and>
              Contains (Get (req_Header ?q) ''Accept-Encoding'') ''deflate'' \<and>
              (\<exists>i rd. deflate_index example_archive (lookup_key ?q) = Some i \<and>
                       OpenRaw (File example_archive ! i) = Inr rd))"
    by (simp add: example_request_eval)
  from headers_when_indexed [OF h, of empty_response ?r example_env] fast
  have "''Accept-Encoding'' \<in> set (Values (header (Handler example_env example_archive empty_response ?r)) ''Vary'') \<and>
        header (Handler example_env example_archive empty_response ?r) ''Accept-Ranges'' = Some [''none'']"
    by presburger
  moreover from headers_when_indexed [OF h, of empty_response ?q example_env] slow
  have "Handler example_env example_archive empty_response ?q =
          fallbackServe example_env example_archive (marked empty_response) ?q"
    by presburger
  ultimately show ?thesis
    using h by blast
qed

subsection \<open>The index of Deflate entries\<close>

text \<open>
  C4. The index built by \<^verbatim>\<open>Handler\<close> has as keys exactly the names of the archive's
  entries whose method is Deflate. Every key maps to a position inside the archive whose
  entry has that name and the Deflate method, and no later entry of the same name has the
  Deflate method: of several Deflate entries sharing a name, the last in archive order is
  the one indexed.
\<close>

theorem index_exact:
  "dom (deflate_index z) = {Name f |f. f \<in> set (File z) \<and> Method f = Deflate} \<and>
   (\<forall>k i. deflate_index z k = Some i \<longrightarrow>
      i < length (File z) \<and> Name (File z ! i) = k \<and> Method (File z ! i) = Deflate \<and>
      (\<forall>j. i < j \<and> j < length (File z) \<and> Name (File z ! j) = k \<longrightarrow> Method (File z ! j) \<noteq> Deflate))"
proof -
  have "dom (deflate_index z) = {Name f |f. f \<in> set (File z) \<and> Method f = Deflate}"
    by (simp add: deflate_index_def index_loop_dom)
  moreover have "\<forall>k i. deflate_index z k = Some i \<longrightarrow>
      i < length (File z) \<and> Name (File z ! i) = k \<and> Method (File z ! i) = Deflate \<and>
      (\<forall>j. i < j \<and> j < length (File z) \<and> Name (File z ! j) = k \<longrightarrow> Method (File z ! j) \<noteq> Deflate)"
    unfolding deflate_index_def using index_loop_last by blast
  ultimately show ?thesis by blast
qed

theorem index_exact_witness:
  "deflate_index example_archive ''LICENSE.txt'' = Some 2 \<and>
   Method (File example_archive ! 2) = Deflate \<and>
   (2::nat) < 3 \<and> 3 < length (File example_archive) \<and>
   Name (File example_archive ! 3) = ''LICENSE.txt'' \<and>
   Method (File example_archive ! 3) \<noteq> Deflate"
proof -
  have idx: "deflate_index example_archive ''LICENSE.txt'' = Some 2"
    by (simp add: deflate_index_def example_archive_def Deflate_def Store_def)
  have later: "(2::nat) < 3 \<and> 3 < length (File example_archive) \<and>
               Name (File example_archive ! 3) = ''LICENSE.txt''"
    by (simp add: example_archive_def)
  from index_exact [of example_archive] idx later show ?thesis
    by blast
qed

subsection \<open>The content type of an entry\<close>

text \<open>
  C5. \<^verbatim>\<open>conjureContentType\<close> returns the type of the name's extension when that type is
  not empty, whatever the entry holds. When it is empty and the entry opens, the result is
  the sniffed type of what one read of at most 512 bytes delivers, a prefix of the
  decompressed content; when the entry does not open, the result is
  \<^verbatim>\<open>application/octet-stream\<close>.
\<close>

theorem content_type_resolver:
  "(TypeByExtension e (Ext (Name zf)) \<noteq> [] \<longrightarrow>
      conjureContentType e zf = TypeByExtension e (Ext (Name zf))) \<and>
   (TypeByExtension e (Ext (Name zf)) = [] \<longrightarrow>
      (\<forall>rc. Open zf = Inr rc \<longrightarrow>
         conjureContentType e zf = DetectContentType e (fst (ReadCloser_Read rc 512)) \<and>
         prefix (fst (ReadCloser_Read rc 512)) (data (stream rc)) \<and>
         length (fst (ReadCloser_Read rc 512)) \<le> 512) \<and>
      (\<forall>err. Open zf = Inl err \<longrightarrow> conjureContentType e zf = ''application/octet-stream''))"
  using ReadCloser_Read_prefix
  by (auto simp: conjureContentType_def Let_def split: prod.splits)

theorem content_type_resolver_witness:
  "TypeByExtension example_env (Ext (Name (File example_archive ! 0))) \<noteq> [] \<and>
   conjureContentType example_env (File example_archive ! 0) = ''text/plain; charset=utf-8'' \<and>
   TypeByExtension example_env (Ext (Name (File example_archive ! 1))) = [] \<and>
   Open (File example_archive ! 1) = Inr example_content \<and>
   conjureContentType example_env (File example_archive ! 1) =
     DetectContentType example_env [0x68, 0x69] \<and>
   TypeByExtension example_env (Ext (Name damaged_entry)) = [] \<and>
   Open damaged_entry = Inl (Error ''zip: unsupported compression algorithm'') \<and>
   conjureContentType example_env damaged_entry = ''application/octet-stream''"
proof -
  have a: "TypeByExtension example_env (Ext (Name (File example_archive ! 0))) = ''text/plain; charset=utf-8''"
    by (simp add: example_archive_def example_env_def Ext_examples)
  have b: "TypeByExtension example_env (Ext (Name (File example_archive ! 1))) = []"
          "Open (File example_archive ! 1) = Inr example_content"
    by (simp_all add: example_archive_def example_env_def Ext_examples)
  have rd: "fst (ReadCloser_Read example_content 512) = [0x68, 0x69]"
    by (simp add: ReadCloser_Read_def Read_def example_content_def)
  have c: "TypeByExtension example_env (Ext (Name damaged_entry)) = []"
          "Open damaged_entry = Inl (Error ''zip: unsupported compression algorithm'')"
    by (simp_all add: damaged_entry_def example_env_def Ext_examples)
  from content_type_resolver [of example_env "File example_archive ! 0"] a
  have "conjureContentType example_env (File example_archive ! 0) = ''text/plain; charset=utf-8''"
    by simp
  moreover from content_type_resolver [of example_env "File example_archive ! 1"] b rd
  have "conjureContentType example_env (File example_archive ! 1) =
          DetectContentType example_env [0x68, 0x69]"
    by simp
  moreover from content_type_resolver [of example_env damaged_entry] c
  have "conjureContentType example_env damaged_entry = ''application/octet-stream''"
    by simp
  ultimately show ?thesis
    using a b c by simp
qed

subsection \<open>Seeking in the adapter\<close>



subsection \<open>The key of a request\<close>

text \<open>
  C7. For a GET request without Range header whose Accept-Encoding contains
  \<^verbatim>\<open>deflate\<close>, the key is the request path without one leading slash, or
  \<^verbatim>\<open>index.html\<close> when nothing is left. When the index has no such key the request goes
  to the fallback (the plain server for an archive without Deflate entries,
  \<^verbatim>\<open>fallbackServe\<close> otherwise); when it has, the entry served is the one the key maps to.
\<close>

theorem lookup_key_and_miss:
  assumes "req_Method r = ''GET''"
    and "Get (req_Header r) ''Range'' = []"
    and "Contains (Get (req_Header r) ''Accept-Encoding'') ''deflate''"
  shows "lookup_key r =
           (let key = (case URL_Path r of [] \<Rightarrow> []
                       | c # rest \<Rightarrow> if c = CHR ''/'' then rest else c # rest)
            in if key = [] then ''index.html'' else key) \<and>
         (deflate_index z (lookup_key r) = None \<longrightarrow>
            Handler e z w r =
              (if dom (deflate_index z) = {} then srv e z w r
               else fallbackServe e z (marked w) r)) \<and>
         (\<forall>i rd. deflate_index z (lookup_key r) = Some i \<and> OpenRaw (File z ! i) = Inr rd \<longrightarrow>
            body (Handler e z w r) = body w @ data rd)"
proof -
  have miss: "Handler e z w r =
           (if dom (deflate_index z) = {} then srv e z w r else fallbackServe e z (marked w) r)"
    if "deflate_index z (lookup_key r) = None"
    using that assms by (simp add: Handler_empty Handler_nonempty serve_eligible)
  have hit: "body (Handler e z w r) = body w @ data rd"
    if "deflate_index z (lookup_key r) = Some i" "OpenRaw (File z ! i) = Inr rd" for i rd
    using that assms index_nonempty [OF that(1)] CopyBuffer_result [OF bufLen_pos]
    by (simp add: Handler_nonempty serve_eligible)
  from miss hit lookup_key_cases [of r] show ?thesis
    by blast
qed

theorem lookup_key_and_miss_witness:
  "req_Method (get_request ''/'' ''deflate'') = ''GET'' \<and>
   Get (req_Header (get_request ''/'' ''deflate'')) ''Range'' = [] \<and>
   Contains (Get (req_Header (get_request ''/'' ''deflate'')) ''Accept-Encoding'') ''deflate'' \<and>
   lookup_key (get_request ''/'' ''deflate'') = ''index.html'' \<and>
   deflate_index example_archive (lookup_key (get_request ''/'' ''deflate'')) = None \<and>
   Handler example_env example_archive empty_response (get_request ''/'' ''deflate'') =
     fallbackServe example_env example_archive (marked empty_response) (get_request ''/'' ''deflate'')"
proof -
  let ?r = "get_request ''/'' ''deflate''"
  have h: "req_Method ?r = ''GET''" "Get (req_Header ?r) ''Range'' = []"
          "Contains (Get (req_Header ?r) ''Accept-Encoding'') ''deflate''"
    by (simp_all add: example_request_eval)
  note th = lookup_key_and_miss [OF h, of example_archive example_env empty_response]
  from th have key: "lookup_key ?r = ''index.html''"
    by (simp add: example_request_eval)
  have none: "deflate_index example_archive (lookup_key ?r) = None"
    by (simp add: key deflate_index_def example_archive_def)
  have ne: "dom (deflate_index example_archive) \<noteq> {}"
    using example_index(1) by (rule index_nonempty)
  from th none ne
  have "Handler example_env example_archive empty_response ?r =
          fallbackServe example_env example_archive (marked empty_response) ?r"
    by presburger
  with h key none show ?thesis
    by blast
qed

subsection \<open>Failure to open the raw stream\<close>

text \<open>
  C8. When the key of an eligible request is in the index and the raw stream of its entry
  does not open, the response is that of \<^verbatim>\<open>fallbackServe\<close> for the request, started from
  the caller's response with the Vary and Accept-Ranges headers added: the handler writes
  no status and no body of its own, and the error is dropped.
\<close>

theorem raw_open_failure_falls_back:
  assumes "req_Method r = ''GET''"
    and "Get (req_Header r) ''Range'' = []"
    and "Contains (Get (req_Header r) ''Accept-Encoding'') ''deflate''"
    and "deflate_index z (lookup_key r) = Some i"
    and "OpenRaw (File z ! i) = Inl err"
  shows "Handler e z w r = fallbackServe e z (marked w) r"
  using assms index_nonempty [OF assms(4)]
  by (simp add: Handler_nonempty serve_eligible)

theorem raw_open_failure_falls_back_witness:
  "req_Method (get_request ''/unknown'' ''deflate'') = ''GET'' \<and>
   Get (req_Header (get_request ''/unknown'' ''deflate'')) ''Range'' = [] \<and>
   Contains (Get (req_Header (get_request ''/unknown'' ''deflate'')) ''Accept-Encoding'') ''deflate'' \<and>
   deflate_index example_archive (lookup_key (get_request ''/unknown'' ''deflate'')) = Some 1 \<and>
   OpenRaw (File example_archive ! 1) = Inl (Error ''unexpected EOF'') \<and>
   Handler example_env example_archive empty_response (get_request ''/unknown'' ''deflate'') =
     fallbackServe example_env example_archive (marked empty_response) (get_request ''/unknown'' ''deflate'') \<and>
   status (Handler example_env example_archive empty_response (get_request ''/unknown'' ''deflate'')) = Some 200 \<and>
   body (Handler example_env example_archive empty_response (get_request ''/unknown'' ''deflate'')) = [0x68, 0x69]"
proof -
  let ?r = "get_request ''/unknown'' ''deflate''"
  have h: "req_Method ?r = ''GET''" "Get (req_Header ?r) ''Range'' = []"
          "Contains (Get (req_Header ?r) ''Accept-Encoding'') ''deflate''"
    by (simp_all add: example_request_eval)
  have key: "lookup_key ?r = ''unknown''"
    by (simp add: lookup_key_def TrimPrefix_def HasPrefix_def example_request_eval)
  have i: "deflate_index example_archive (lookup_key ?r) = Some 1"
    by (simp add: key example_index)
  have o: "OpenRaw (File example_archive ! 1) = Inl (Error ''unexpected EOF'')"
    by (simp add: example_archive_def)
  have fb: "fallbackServe example_env example_archive (marked empty_response) ?r =
            fst (CopyBuffer (marked empty_response) (stream example_content) 512)"
    by (simp add: fallbackServe_def srvSeek0_def seekableFS_Open_def example_env_def
        example_FileServer_def example_request_eval Ext_examples TrimPrefix_def HasPrefix_def
        example_archive_def)
  have res: "status (fst (CopyBuffer (marked empty_response) (stream example_content) 512)) = Some 200"
            "body (fst (CopyBuffer (marked empty_response) (stream example_content) 512)) = [0x68, 0x69]"
    using CopyBuffer_result [of 512 "marked empty_response" "stream example_content"]
    by (simp_all add: empty_response_def example_content_def)
  from raw_open_failure_falls_back [OF h i o, of example_env empty_response] h i o fb res
  show ?thesis
    by simp
qed

subsection \<open>Failure to open the entry again\<close>




subsection \<open>The test for deflate\<close>

text \<open>
  C10. For a GET request without Range header, with its key in the index and a raw stream
  that opens, the fast path is taken exactly when \<^verbatim>\<open>deflate\<close> occurs somewhere in the
  value of Accept-Encoding as a substring: then the response has Content-Encoding
  \<^verbatim>\<open>deflate\<close> and the raw bytes as body, and otherwise the request goes to
  \<^verbatim>\<open>fallbackServe\<close>. The value \<^verbatim>\<open>deflate;q=0\<close> is one that is served compressed.
\<close>

theorem deflate_substring_match:
  assumes "req_Method r = ''GET''"
    and "Get (req_Header r) ''Range'' = []"
    and "deflate_index z (lookup_key r) = Some i"
    and "OpenRaw (File z ! i) = Inr rd"
  shows "if \<exists>a b. Get (req_Header r) ''Accept-Encoding'' = a @ ''deflate'' @ b
         then header (Handler e z w r) ''Content-Encoding'' = Some [''deflate''] \<and>
              body (Handler e z w r) = body w @ data rd
         else Handler e z w r = fallbackServe e z (marked w) r"
proof (cases "\<exists>a b. Get (req_Header r) ''Accept-Encoding'' = a @ ''deflate'' @ b")
  case True
  then have "Contains (Get (req_Header r) ''Accept-Encoding'') ''deflate''"
    by (simp add: Contains_iff)
  with assms index_nonempty [OF assms(3)] CopyBuffer_result [OF bufLen_pos] True show ?thesis
    by (simp add: Handler_nonempty serve_eligible Set_def)
next
  case False
  then have "\<not> Contains (Get (req_Header r) ''Accept-Encoding'') ''deflate''"
    by (simp add: Contains_iff)
  with index_nonempty [OF assms(3)] False show ?thesis
    by (simp add: Handler_nonempty serve_ineligible)
qed

theorem deflate_substring_match_witness:
  "req_Method (get_request ''/LICENSE.txt'' ''deflate;q=0'') = ''GET'' \<and>
   Get (req_Header (get_request ''/LICENSE.txt'' ''deflate;q=0'')) ''Range'' = [] \<and>
   deflate_index example_archive (lookup_key (get_request ''/LICENSE.txt'' ''deflate;q=0'')) = Some 2 \<and>
   OpenRaw (File example_archive ! 2) = Inr example_raw \<and>
   Get (req_Header (get_request ''/LICENSE.txt'' ''deflate;q=0'')) ''Accept-Encoding'' =
     [] @ ''deflate'' @ '';q=0'' \<and>
   header (Handler example_env example_archive empty_response (get_request ''/LICENSE.txt'' ''deflate;q=0''))
     ''Content-Encoding'' = Some [''deflate''] \<and>
   body (Handler example_env example_archive empty_response (get_request ''/LICENSE.txt'' ''deflate;q=0''))
     = [0xCB, 0xC8, 0x04, 0x00]"
proof -
  let ?r = "get_request ''/LICENSE.txt'' ''deflate;q=0''"
  have h: "req_Method ?r = ''GET''" "Get (req_Header ?r) ''Range'' = []"
    by (simp_all add: example_request_eval)
  have key: "lookup_key ?r = ''LICENSE.txt''"
    by (simp add: lookup_key_def TrimPrefix_def HasPrefix_def example_request_eval)
  have i: "deflate_index example_archive (lookup_key ?r) = Some 2"
    by (simp add: key example_index)
  have o: "OpenRaw (File example_archive ! 2) = Inr example_raw"
    by (simp add: example_archive_def)
  have ae: "Get (req_Header ?r) ''Accept-Encoding'' = [] @ ''deflate'' @ '';q=0''"
    by (simp add: example_request_eval)
  then have ex: "\<exists>a b. Get (req_Header ?r) ''Accept-Encoding'' = a @ ''deflate'' @ b"
    by blast
  from deflate_substring_match [OF h i o, of example_env empty_response] ex
  have "header (Handler example_env example_archive empty_response ?r) ''Content-Encoding'' = Some [''deflate''] \<and>
        body (Handler example_env example_archive empty_response ?r) = body empty_response @ data example_raw"
    by presburger
  then show ?thesis
    using h i o ae by (simp add: empty_response_def example_raw_def)
qed

end
